theory Spec2Isabelle
  imports Complex_Main "HOL-Library.AList"
begin

section \<open>Values shared by the manager and the gateways\<close>

text \<open>
  The proxy server of \<^verbatim>\<open>src/excel_mcp/proxy_server.py\<close> keeps one worker process per
  session id and forwards requests to it over the worker's pipes.  Session ids and the
  payloads are byte strings.  A Python object that matters only through its identity
  (a \<^verbatim>\<open>Popen\<close> object, a \<^verbatim>\<open>Lock\<close>) is the number the allocator gave it.  The clock
  \<^verbatim>\<open>time.time()\<close> is read as a real number; the rounding of floating point subtraction
  is not part of the model.
\<close>

type_synonym session_id = string
type_synonym bytes = string
type_synonym obj = nat

text \<open>
  Exceptions are values.  \<open>OtherError m\<close> is any further subclass of \<^verbatim>\<open>Exception\<close>
  (\<^verbatim>\<open>BrokenPipeError\<close>, \<^verbatim>\<open>OSError\<close>, \<^verbatim>\<open>UnicodeDecodeError\<close>, ...) whose \<^verbatim>\<open>str(e)\<close>
  is \<open>m\<close>.
\<close>

datatype exn =
    TimeoutExpired
  | JSONDecodeError string
  | HTTPException nat string
  | OtherError string

datatype 'a outcome = Returns 'a | Raises exn

text \<open>
  Everything the server does to the outside world is appended to a trace: the calls on
  the worker objects and on the locks, in the order the code makes them.
\<close>

datatype call =
    Popen obj string
  | Terminate obj
  | Wait obj nat
  | Kill obj
  | Acquire obj
  | Release obj
  | Stdin_write obj bytes
  | Stdin_flush obj
  | Stdout_readline obj
  | Send_bytes bytes

datatype task = Task_pending | Task_cancelled

section \<open>StdioSubprocessManager\<close>

text \<open>
  The three dictionaries are association lists in insertion order, as Python's \<^verbatim>\<open>dict\<close>
  is: \<^verbatim>\<open>k in d\<close> is \<open>map_of d k \<noteq> None\<close>, \<^verbatim>\<open>d[k] = v\<close> is \<open>AList.update k v d\<close>,
  \<^verbatim>\<open>d.pop(k, None)\<close> is \<open>AList.delete k d\<close>, \<^verbatim>\<open>list(d.items())\<close> is \<open>d\<close> itself.
  \<open>heap_next\<close> is the next free object identity and \<open>trace\<close> the calls made so far;
  the other fields are the attributes set by \<^verbatim>\<open>__init__\<close>.
\<close>

record manager =
  processes :: "(session_id \<times> obj) list"
  process_locks :: "(session_id \<times> obj) list"
  last_activity :: "(session_id \<times> real) list"
  excel_files_path :: string
  idle_timeout :: real
  cleanup_task :: "task option"
  heap_next :: obj
  trace :: "call list"

definition StdioSubprocessManager :: "string \<Rightarrow> manager" where
  "StdioSubprocessManager path =
     \<lparr>processes = [], process_locks = [], last_activity = [],
      excel_files_path = path, idle_timeout = 300, cleanup_task = None,
      heap_next = 0, trace = []\<rparr>"

definition start_cleanup_task :: "manager \<Rightarrow> manager" where
  "start_cleanup_task s = s\<lparr>cleanup_task := Some Task_pending\<rparr>"

text \<open>
  How one worker process answers the three calls \<^verbatim>\<open>terminate()\<close>, \<^verbatim>\<open>wait(timeout=5)\<close>
  and \<^verbatim>\<open>kill()\<close>: each returns or raises.  \<^verbatim>\<open>wait\<close> raises \<open>TimeoutExpired\<close> when the
  process is still alive after the timeout.
\<close>

record reaction =
  terminate_result :: "unit outcome"
  wait_result :: "unit outcome"
  kill_result :: "unit outcome"

text \<open>
  The body of the \<^verbatim>\<open>try\<close> in \<^verbatim>\<open>terminate_process\<close>: the calls it makes on the process and
  whether it leaves by an exception.
\<close>

definition stop_process :: "reaction \<Rightarrow> obj \<Rightarrow> call list \<times> unit outcome" where
  "stop_process r process =
     (case terminate_result r of
        Raises e \<Rightarrow> ([Terminate process], Raises e)
      | Returns _ \<Rightarrow>
          (case wait_result r of
             Returns _ \<Rightarrow> ([Terminate process, Wait process 5], Returns ())
           | Raises TimeoutExpired \<Rightarrow>
               (case kill_result r of
                  Returns _ \<Rightarrow> ([Terminate process, Wait process 5, Kill process], Returns ())
                | Raises e \<Rightarrow> ([Terminate process, Wait process 5, Kill process], Raises e))
           | Raises e \<Rightarrow> ([Terminate process, Wait process 5], Raises e)))"

text \<open>
  \<^verbatim>\<open>terminate_process\<close>.  The handler \<^verbatim>\<open>except Exception\<close> only logs, so the outcome of
  the body is dropped and the three \<^verbatim>\<open>pop\<close>s follow in every case; the function
  itself has no exceptional result.  Nothing happens when the session id is not a key
  of \<^verbatim>\<open>processes\<close>.
\<close>

definition terminate_process :: "(obj \<Rightarrow> reaction) \<Rightarrow> session_id \<Rightarrow> manager \<Rightarrow> manager" where
  "terminate_process os session_id s =
     (case map_of (processes s) session_id of
        None \<Rightarrow> s
      | Some process \<Rightarrow>
          s\<lparr>processes := AList.delete session_id (processes s),
            process_locks := AList.delete session_id (process_locks s),
            last_activity := AList.delete session_id (last_activity s),
            trace := trace s @ fst (stop_process (os process) process)\<rparr>)"

text \<open>
  \<^verbatim>\<open>cleanup_idle_processes\<close>: the clock is read once, the loop runs over the items that
  \<^verbatim>\<open>last_activity\<close> had when the loop started.
\<close>

fun cleanup_loop ::
  "(obj \<Rightarrow> reaction) \<Rightarrow> real \<Rightarrow> (session_id \<times> real) list \<Rightarrow> manager \<Rightarrow> manager" where
  "cleanup_loop os current_time [] s = s"
| "cleanup_loop os current_time ((session_id, last_time) # items) s =
     cleanup_loop os current_time items
       (if current_time - last_time > idle_timeout s
        then terminate_process os session_id s else s)"

definition cleanup_idle_processes :: "(obj \<Rightarrow> reaction) \<Rightarrow> real \<Rightarrow> manager \<Rightarrow> manager" where
  "cleanup_idle_processes os current_time s =
     cleanup_loop os current_time (last_activity s) s"

text \<open>
  \<^verbatim>\<open>get_or_create_process\<close>.  \<open>spawned\<close> says whether \<^verbatim>\<open>subprocess.Popen\<close> returns or raises
  (the executable is missing, no more processes); \<open>now\<close> is the clock reading.
\<close>

definition get_or_create_process ::
  "unit outcome \<Rightarrow> real \<Rightarrow> session_id \<Rightarrow> manager \<Rightarrow> manager \<times> obj outcome" where
  "get_or_create_process spawned now session_id s =
     (case map_of (processes s) session_id of
        Some process \<Rightarrow>
          (s\<lparr>last_activity := AList.update session_id now (last_activity s)\<rparr>,
           Returns process)
      | None \<Rightarrow>
          (case spawned of
             Raises e \<Rightarrow> (s, Raises e)
           | Returns _ \<Rightarrow>
               (let process = heap_next s; lock = heap_next s + 1
                in (s\<lparr>processes := AList.update session_id process (processes s),
                      process_locks := AList.update session_id lock (process_locks s),
                      last_activity := AList.update session_id now (last_activity s),
                      heap_next := heap_next s + 2,
                      trace := trace s @ [Popen process (excel_files_path s)]\<rparr>,
                    Returns process))))"

definition get_process_lock :: "session_id \<Rightarrow> manager \<Rightarrow> manager \<times> obj" where
  "get_process_lock session_id s =
     (case map_of (process_locks s) session_id of
        Some lock \<Rightarrow> (s, lock)
      | None \<Rightarrow>
          (s\<lparr>process_locks := AList.update session_id (heap_next s) (process_locks s),
             heap_next := heap_next s + 1\<rparr>,
           heap_next s))"

definition terminate_all :: "(obj \<Rightarrow> reaction) \<Rightarrow> manager \<Rightarrow> manager" where
  "terminate_all os s =
     (let s' = fold (terminate_process os) (map fst (processes s)) s
      in case cleanup_task s' of
           None \<Rightarrow> s'
         | Some _ \<Rightarrow> s'\<lparr>cleanup_task := Some Task_cancelled\<rparr>)"


section \<open>What an exception prints\<close>

text \<open>
  \<^verbatim>\<open>str(e)\<close>.  Starlette's \<^verbatim>\<open>HTTPException.__str__\<close> returns
  \<^verbatim>\<open>f"{self.status_code}: {self.detail}"\<close>; the other exceptions print their message.
\<close>

function decimal :: "nat \<Rightarrow> string" where
  "decimal n =
     (if n < 10 then [''0123456789'' ! n]
      else decimal (n div 10) @ [''0123456789'' ! (n mod 10)])"
  by pat_completeness auto
termination
  by (relation "measure (\<lambda>n. n)") auto

declare decimal.simps [simp del]

fun str_exn :: "exn \<Rightarrow> string" where
  "str_exn TimeoutExpired =
     ''Command '' @ [CHR 0x27] @ ''['' @ [CHR 0x27] @ ''python'' @ [CHR 0x27] @ '', ''
       @ [CHR 0x27] @ ''-m'' @ [CHR 0x27] @ '', '' @ [CHR 0x27] @ ''excel_mcp'' @ [CHR 0x27]
       @ '', '' @ [CHR 0x27] @ ''stdio'' @ [CHR 0x27] @ '']'' @ [CHR 0x27]
       @ '' timed out after 5 seconds''"
| "str_exn (JSONDecodeError m) = m"
| "str_exn (HTTPException code detail) = decimal code @ '': '' @ detail"
| "str_exn (OtherError m) = m"

section \<open>The unary gateway: POST /{path}\<close>

record response =
  status_code :: nat
  content :: bytes
  media_type :: "string option"
  headers :: "(string \<times> string) list"

text \<open>
  What the request finds outside the manager: the value of \<^verbatim>\<open>str(uuid.uuid4())\<close>, the
  clock reading taken by \<^verbatim>\<open>get_or_create_process\<close>, and whether \<^verbatim>\<open>Popen\<close> succeeds.
\<close>

record env =
  uuid4 :: string
  clock :: real
  popen :: "unit outcome"

text \<open>
  What the worker's pipes do during one unary exchange.  \<^verbatim>\<open>readline\<close> returns the empty
  byte string at the end of the worker's output.
\<close>

record pipe_io =
  stdin_write :: "unit outcome"
  stdin_flush :: "unit outcome"
  stdout_readline :: "bytes outcome"

text \<open>
  The JSON library is a parameter: \<open>loads\<close> is
  \<^verbatim>\<open>json.loads(response_line.decode("utf-8"))\<close>, which returns the parsed value, raises
  \<^verbatim>\<open>JSONDecodeError\<close>, or raises something else (\<^verbatim>\<open>UnicodeDecodeError\<close>); \<open>dumps\<close> is
  \<^verbatim>\<open>json.dumps(parsed_response).encode("utf-8")\<close>, which returns on every value that
  \<open>loads\<close> produces.
\<close>

record 'j json_lib =
  loads :: "bytes \<Rightarrow> 'j outcome"
  dumps :: "'j \<Rightarrow> bytes"

definition emit :: "call list \<Rightarrow> manager \<Rightarrow> manager" where
  "emit cs s = s\<lparr>trace := trace s @ cs\<rparr>"

text \<open>\<^verbatim>\<open>with process_lock:\<close> releases the lock however the body is left.\<close>

definition with_lock :: "obj \<Rightarrow> (manager \<Rightarrow> manager \<times> 'a) \<Rightarrow> manager \<Rightarrow> manager \<times> 'a" where
  "with_lock lock body s =
     (case body (emit [Acquire lock] s) of (s', r) \<Rightarrow> (emit [Release lock] s', r))"

definition session_header :: "string option \<Rightarrow> string \<Rightarrow> session_id" where
  "session_header header fresh = (case header of Some v \<Rightarrow> v | None \<Rightarrow> fresh)"

text \<open>The statements under \<^verbatim>\<open>with process_lock:\<close> in \<^verbatim>\<open>handle_request\<close>.\<close>

definition locked_exchange ::
  "'j json_lib \<Rightarrow> (obj \<Rightarrow> reaction) \<Rightarrow> pipe_io \<Rightarrow> session_id \<Rightarrow> obj \<Rightarrow> bytes \<Rightarrow>
   manager \<Rightarrow> manager \<times> response outcome" where
  "locked_exchange json os io session_id process body s =
     (case stdin_write io of
        Raises e \<Rightarrow> (emit [Stdin_write process (body @ ''\<newline>'')] s, Raises e)
      | Returns _ \<Rightarrow>
     (case stdin_flush io of
        Raises e \<Rightarrow>
          (emit [Stdin_write process (body @ ''\<newline>''), Stdin_flush process] s, Raises e)
      | Returns _ \<Rightarrow>
     (let s' = emit [Stdin_write process (body @ ''\<newline>''), Stdin_flush process,
                     Stdout_readline process] s
      in case stdout_readline io of
           Raises e \<Rightarrow> (s', Raises e)
         | Returns response_line \<Rightarrow>
             if response_line = [] then
               (terminate_process os session_id s',
                Raises (HTTPException 500 ''Subprocess terminated unexpectedly''))
             else
               (case loads json response_line of
                  Returns parsed_response \<Rightarrow>
                    (s', Returns \<lparr>status_code = 200, content = dumps json parsed_response,
                                  media_type = Some ''application/json'',
                                  headers = [(''X-Session-ID'', session_id)]\<rparr>)
                | Raises (JSONDecodeError m) \<Rightarrow>
                    (s', Returns \<lparr>status_code = 200, content = response_line,
                                  media_type = None,
                                  headers = [(''X-Session-ID'', session_id)]\<rparr>)
                | Raises e \<Rightarrow> (s', Raises e)))))"

text \<open>
  \<^verbatim>\<open>handle_request\<close>.  An exception of \<^verbatim>\<open>get_or_create_process\<close> is raised outside the
  \<^verbatim>\<open>try\<close> and leaves the handler as it is; every exception of the locked body, the
  \<open>HTTPException\<close> of the empty read included, reaches \<^verbatim>\<open>except Exception\<close>.
\<close>

definition handle_request ::
  "'j json_lib \<Rightarrow> (obj \<Rightarrow> reaction) \<Rightarrow> env \<Rightarrow> pipe_io \<Rightarrow> string option \<Rightarrow> bytes \<Rightarrow>
   manager \<Rightarrow> manager \<times> response outcome" where
  "handle_request json os ev io header body s =
     (let session_id = session_header header (uuid4 ev)
      in case get_or_create_process (popen ev) (clock ev) session_id s of
           (s1, Raises e) \<Rightarrow> (s1, Raises e)
         | (s1, Returns process) \<Rightarrow>
             (case get_process_lock session_id s1 of
                (s2, process_lock) \<Rightarrow>
                  (case with_lock process_lock
                          (locked_exchange json os io session_id process body) s2 of
                     (s3, Returns r) \<Rightarrow> (s3, Returns r)
                   | (s3, Raises e) \<Rightarrow>
                       (terminate_process os session_id s3,
                        Raises (HTTPException 500
                                  (''Error processing request: '' @ str_exn e))))))"

text \<open>
  The status the client sees: that of the response, that of an \<open>HTTPException\<close>, and
  500 from the framework for any other exception that leaves the handler.
\<close>

fun http_status :: "response outcome \<Rightarrow> nat" where
  "http_status (Returns r) = status_code r"
| "http_status (Raises (HTTPException code detail)) = code"
| "http_status (Raises e) = 500"


section \<open>The stream gateway: POST /stream/{path}\<close>

record streaming_response =
  stream_status :: nat
  chunks :: "bytes list"
  stream_media_type :: string
  stream_headers :: "(string \<times> string) list"

text \<open>
  During a stream the worker's output is a script: the outcome of each \<^verbatim>\<open>readline\<close>,
  with the clock reading that follows it.  When the script is used up the output has
  ended and \<^verbatim>\<open>readline\<close> returns the empty byte string.
\<close>

record stream_io =
  stream_write :: "unit outcome"
  stream_flush :: "unit outcome"
  stream_readlines :: "(bytes outcome \<times> real) list"

text \<open>
  The \<^verbatim>\<open>while True\<close> loop of \<^verbatim>\<open>response_generator\<close>: the chunks it yields and how it
  ends.
\<close>

fun read_loop ::
  "session_id \<Rightarrow> obj \<Rightarrow> (bytes outcome \<times> real) list \<Rightarrow> manager \<Rightarrow>
   manager \<times> bytes list \<times> unit outcome" where
  "read_loop session_id process [] s = (emit [Stdout_readline process] s, [], Returns ())"
| "read_loop session_id process ((Raises e, now) # script) s =
     (emit [Stdout_readline process] s, [], Raises e)"
| "read_loop session_id process ((Returns response_line, now) # script) s =
     (if response_line = [] then (emit [Stdout_readline process] s, [], Returns ())
      else
        (case read_loop session_id process script
                ((emit [Stdout_readline process] s)
                   \<lparr>last_activity := AList.update session_id now (last_activity s)\<rparr>) of
           (s', yielded, r) \<Rightarrow> (s', response_line # yielded, r)))"

definition locked_stream ::
  "stream_io \<Rightarrow> session_id \<Rightarrow> obj \<Rightarrow> bytes \<Rightarrow> manager \<Rightarrow>
   manager \<times> bytes list \<times> unit outcome" where
  "locked_stream io session_id process body s =
     (case stream_write io of
        Raises e \<Rightarrow> (emit [Stdin_write process (body @ ''\<newline>'')] s, [], Raises e)
      | Returns _ \<Rightarrow>
     (case stream_flush io of
        Raises e \<Rightarrow>
          (emit [Stdin_write process (body @ ''\<newline>''), Stdin_flush process] s, [], Raises e)
      | Returns _ \<Rightarrow>
          read_loop session_id process (stream_readlines io)
            (emit [Stdin_write process (body @ ''\<newline>''), Stdin_flush process] s)))"

text \<open>
  \<^verbatim>\<open>response_generator\<close>, run until it is exhausted: the state it leaves and the chunks it
  yielded.  It runs on the state it finds; nothing else runs between its chunks here.
\<close>

definition response_generator ::
  "(obj \<Rightarrow> reaction) \<Rightarrow> stream_io \<Rightarrow> session_id \<Rightarrow> obj \<Rightarrow> obj \<Rightarrow> bytes \<Rightarrow>
   manager \<Rightarrow> manager \<times> bytes list" where
  "response_generator os io session_id process process_lock body s =
     (case with_lock process_lock (locked_stream io session_id process body) s of
        (s1, yielded, Returns _) \<Rightarrow> (s1, yielded)
      | (s1, yielded, Raises e) \<Rightarrow>
          (terminate_process os session_id s1, yielded @ [''Error: '' @ str_exn e]))"

definition handle_stream_request ::
  "(obj \<Rightarrow> reaction) \<Rightarrow> env \<Rightarrow> stream_io \<Rightarrow> string option \<Rightarrow> bytes \<Rightarrow>
   manager \<Rightarrow> manager \<times> streaming_response outcome" where
  "handle_stream_request os ev io header body s =
     (let session_id = session_header header (uuid4 ev)
      in case get_or_create_process (popen ev) (clock ev) session_id s of
           (s1, Raises e) \<Rightarrow> (s1, Raises e)
         | (s1, Returns process) \<Rightarrow>
             (case get_process_lock session_id s1 of
                (s2, process_lock) \<Rightarrow>
                  (case response_generator os io session_id process process_lock body s2 of
                     (s3, yielded) \<Rightarrow>
                       (s3, Returns \<lparr>stream_status = 200, chunks = yielded,
                                     stream_media_type = ''application/jsonl'',
                                     stream_headers = [(''X-Session-ID'', session_id)]\<rparr>))))"

section \<open>The duplex gateway: WS /ws/{path}\<close>




text \<open>
  One round of the receive loop on a message \<open>data\<close>; the boolean says whether the loop
  goes on.
\<close>

definition receive_step ::
  "session_id \<Rightarrow> obj \<Rightarrow> obj \<Rightarrow> bytes \<Rightarrow> real \<Rightarrow> unit outcome \<Rightarrow> unit outcome \<Rightarrow> manager \<Rightarrow>
   manager \<times> bool" where
  "receive_step session_id process process_lock data now written flushed s =
     (let s1 = s\<lparr>last_activity := AList.update session_id now (last_activity s)\<rparr>
      in case written of
           Raises e \<Rightarrow>
             (emit [Acquire process_lock, Stdin_write process (data @ ''\<newline>''),
                    Release process_lock] s1, False)
         | Returns _ \<Rightarrow>
             (emit [Acquire process_lock, Stdin_write process (data @ ''\<newline>''),
                    Stdin_flush process, Release process_lock] s1,
              case flushed of Returns _ \<Rightarrow> True | Raises e \<Rightarrow> False))"




section \<open>Sequences of manager operations\<close>

datatype manager_op =
    Get_or_create_process "unit outcome" real session_id
  | Get_process_lock session_id
  | Terminate_process "obj \<Rightarrow> reaction" session_id
  | Cleanup_idle_processes "obj \<Rightarrow> reaction" real
  | Terminate_all "obj \<Rightarrow> reaction"

fun apply_op :: "manager_op \<Rightarrow> manager \<Rightarrow> manager" where
  "apply_op (Get_or_create_process spawned now session_id) s =
     fst (get_or_create_process spawned now session_id s)"
| "apply_op (Get_process_lock session_id) s = fst (get_process_lock session_id s)"
| "apply_op (Terminate_process os session_id) s = terminate_process os session_id s"
| "apply_op (Cleanup_idle_processes os now) s = cleanup_idle_processes os now s"
| "apply_op (Terminate_all os) s = terminate_all os s"

definition run_ops :: "manager_op list \<Rightarrow> manager \<Rightarrow> manager" where
  "run_ops ops s = fold apply_op ops s"

text \<open>
  Whether every \<^verbatim>\<open>get_process_lock\<close> of a run is called for a session id that has a
  process at that moment, as the three gateways call it.
\<close>

fun locks_after_resolve :: "manager_op list \<Rightarrow> manager \<Rightarrow> bool" where
  "locks_after_resolve [] s = True"
| "locks_after_resolve (Get_process_lock session_id # ops) s =
     (map_of (processes s) session_id \<noteq> None \<and>
      locks_after_resolve ops (apply_op (Get_process_lock session_id) s))"
| "locks_after_resolve (op # ops) s = locks_after_resolve ops (apply_op op s)"


section \<open>Notions used to state the properties\<close>

text \<open>
  Object identities are handed out in increasing order, so every object that the
  registry holds is older than the next one.
\<close>

definition heap_ok :: "manager \<Rightarrow> bool" where
  "heap_ok s =
     (list_all (\<lambda>(k, process). process < heap_next s) (processes s) \<and>
      list_all (\<lambda>(k, lock). lock < heap_next s) (process_locks s))"

text \<open>The keys of a dictionary, and the two ways the three dictionaries can agree.\<close>

definition keys :: "('k \<times> 'v) list \<Rightarrow> 'k set" where
  "keys d = fst ` set d"

definition registry_sound :: "manager \<Rightarrow> bool" where
  "registry_sound s =
     (keys (processes s) = keys (last_activity s) \<and>
      keys (processes s) \<subseteq> keys (process_locks s))"

definition registry_in_step :: "manager \<Rightarrow> bool" where
  "registry_in_step s =
     (keys (processes s) = keys (last_activity s) \<and>
      keys (process_locks s) = keys (processes s))"

text \<open>The writes to a worker's input and the process launches found in a trace.\<close>

fun is_write :: "call \<Rightarrow> bool" where
  "is_write (Stdin_write process data) = True"
| "is_write c = False"

fun is_popen :: "call \<Rightarrow> bool" where
  "is_popen (Popen process path) = True"
| "is_popen c = False"

fun is_terminate :: "call \<Rightarrow> bool" where
  "is_terminate (Terminate process) = True"
| "is_terminate c = False"

text \<open>
  A unary exchange fails when the write, the flush or the read raises, or when the read
  returns the empty byte string.
\<close>

definition exchange_failed :: "pipe_io \<Rightarrow> bool" where
  "exchange_failed io =
     (case stdin_write io of
        Raises e \<Rightarrow> True
      | Returns _ \<Rightarrow>
          (case stdin_flush io of
             Raises e \<Rightarrow> True
           | Returns _ \<Rightarrow>
               (case stdout_readline io of
                  Raises e \<Rightarrow> True
                | Returns response_line \<Rightarrow> response_line = [])))"

text \<open>The calls that an idle scan makes for one item of \<^verbatim>\<open>last_activity\<close>.\<close>

definition reap_calls :: "(obj \<Rightarrow> reaction) \<Rightarrow> manager \<Rightarrow> session_id \<times> real \<Rightarrow> call list" where
  "reap_calls os s item =
     (case map_of (processes s) (fst item) of
        None \<Rightarrow> []
      | Some process \<Rightarrow> fst (stop_process (os process) process))"

text \<open>A script of lines that are all read: each is returned, none is empty.\<close>

definition lines_script :: "(bytes \<times> real) list \<Rightarrow> (bytes outcome \<times> real) list" where
  "lines_script ls = map (\<lambda>(response_line, now). (Returns response_line, now)) ls"

definition nonempty_lines :: "(bytes \<times> real) list \<Rightarrow> bool" where
  "nonempty_lines ls = list_all (\<lambda>(response_line, now). response_line \<noteq> []) ls"

text \<open>Whether a script is at the end of the worker's output.\<close>

fun at_end :: "(bytes outcome \<times> real) list \<Rightarrow> bool" where
  "at_end [] = True"
| "at_end ((Returns response_line, now) # script) = (response_line = [])"
| "at_end ((Raises e, now) # script) = False"

text \<open>
  Two ways a stream can go, told from what the pipes do.  \<open>stream_ended io ls\<close>: the
  request was written and flushed, the lines \<open>ls\<close> were read (each with the clock
  reading that followed it) and then the worker's output was at its end.
  \<open>stream_fault io ls e\<close>: the exception \<open>e\<close> was raised by the write, by the flush, or
  by the read that followed the lines \<open>ls\<close>.
\<close>

definition stream_ended :: "stream_io \<Rightarrow> (bytes \<times> real) list \<Rightarrow> bool" where
  "stream_ended io ls =
     (stream_write io = Returns () \<and> stream_flush io = Returns () \<and> nonempty_lines ls \<and>
      take (length ls) (stream_readlines io) = lines_script ls \<and>
      at_end (drop (length ls) (stream_readlines io)))"

definition stream_fault :: "stream_io \<Rightarrow> (bytes \<times> real) list \<Rightarrow> exn \<Rightarrow> bool" where
  "stream_fault io ls e =
     (case stream_write io of
        Raises e' \<Rightarrow> e' = e \<and> ls = []
      | Returns _ \<Rightarrow>
          (case stream_flush io of
             Raises e' \<Rightarrow> e' = e \<and> ls = []
           | Returns _ \<Rightarrow>
               nonempty_lines ls \<and>
               take (length ls) (stream_readlines io) = lines_script ls \<and>
               (case drop (length ls) (stream_readlines io) of
                  (Raises e', now) # script \<Rightarrow> e' = e
                | _ \<Rightarrow> False)))"

section \<open>A JSON library on scalar lines\<close>

text \<open>
  Python's \<^verbatim>\<open>json\<close> module on the lines that hold \<^verbatim>\<open>null\<close>, \<^verbatim>\<open>true\<close>, \<^verbatim>\<open>false\<close> or an
  integer literal between JSON white space: \<^verbatim>\<open>json.loads\<close> returns the value and
  \<^verbatim>\<open>json.dumps\<close> prints it without white space.  Lines that hold no JSON text raise
  \<open>JSONDecodeError\<close>.  Strings, arrays, objects and fractions are outside this instance,
  which answers \<open>JSONDecodeError\<close> for them where Python parses; it is used on scalar
  lines only.
\<close>

datatype json_scalar = JNull | JBool bool | JInt int

definition json_space :: "char \<Rightarrow> bool" where
  "json_space c = (c = CHR '' '' \<or> c = CHR 0x09 \<or> c = CHR 0x0A \<or> c = CHR 0x0D)"

definition json_strip :: "string \<Rightarrow> string" where
  "json_strip cs = rev (dropWhile json_space (rev (dropWhile json_space cs)))"

definition digit_value :: "char \<Rightarrow> nat option" where
  "digit_value c =
     map_of [(CHR ''0'', 0), (CHR ''1'', 1), (CHR ''2'', 2), (CHR ''3'', 3), (CHR ''4'', 4),
             (CHR ''5'', 5), (CHR ''6'', 6), (CHR ''7'', 7), (CHR ''8'', 8), (CHR ''9'', 9)] c"

fun digits_value :: "string \<Rightarrow> nat \<Rightarrow> nat option" where
  "digits_value [] acc = Some acc"
| "digits_value (c # cs) acc =
     (case digit_value c of None \<Rightarrow> None | Some d \<Rightarrow> digits_value cs (10 * acc + d))"

definition nat_literal :: "string \<Rightarrow> nat option" where
  "nat_literal cs =
     (case cs of
        [] \<Rightarrow> None
      | c # rest \<Rightarrow> if c = CHR ''0'' \<and> rest \<noteq> [] then None else digits_value cs 0)"

definition int_literal :: "string \<Rightarrow> int option" where
  "int_literal cs =
     (case cs of
        [] \<Rightarrow> None
      | c # rest \<Rightarrow>
          if c = CHR ''-'' then map_option (\<lambda>n. - int n) (nat_literal rest)
          else map_option int (nat_literal cs))"

definition scalar_loads :: "bytes \<Rightarrow> json_scalar outcome" where
  "scalar_loads response_line =
     (let text = json_strip response_line
      in if text = ''null'' then Returns JNull
         else if text = ''true'' then Returns (JBool True)
         else if text = ''false'' then Returns (JBool False)
         else (case int_literal text of
                 Some n \<Rightarrow> Returns (JInt n)
               | None \<Rightarrow> Raises (JSONDecodeError ''Expecting value'')))"

fun scalar_dumps :: "json_scalar \<Rightarrow> bytes" where
  "scalar_dumps JNull = ''null''"
| "scalar_dumps (JBool b) = (if b then ''true'' else ''false'')"
| "scalar_dumps (JInt n) = (if n < 0 then ''-'' @ decimal (nat (- n)) else decimal (nat n))"

definition scalar_json :: "json_scalar json_lib" where
  "scalar_json = \<lparr>loads = scalar_loads, dumps = scalar_dumps\<rparr>"



section \<open>Sample inputs\<close>

definition calm :: reaction where
  "calm = \<lparr>terminate_result = Returns (), wait_result = Returns (), kill_result = Returns ()\<rparr>"

definition stubborn :: reaction where
  "stubborn = \<lparr>terminate_result = Returns (), wait_result = Raises TimeoutExpired,
               kill_result = Returns ()\<rparr>"

definition defunct :: reaction where
  "defunct = \<lparr>terminate_result = Raises (OtherError ''[Errno 1] Operation not permitted''),
              wait_result = Returns (), kill_result = Returns ()\<rparr>"

definition all_calm :: "obj \<Rightarrow> reaction" where
  "all_calm process = calm"

definition all_stubborn :: "obj \<Rightarrow> reaction" where
  "all_stubborn process = stubborn"

definition all_defunct :: "obj \<Rightarrow> reaction" where
  "all_defunct process = defunct"

definition fresh_manager :: manager where
  "fresh_manager = StdioSubprocessManager ''/tmp/excel_mcp_files''"

definition at_noon :: env where
  "at_noon = \<lparr>uuid4 = ''6f1c'', clock = 0, popen = Returns ()\<rparr>"

definition one_worker :: manager where
  "one_worker = fst (get_or_create_process (Returns ()) 0 ''abc'' fresh_manager)"

text \<open>
  A duplex session whose worker was reaped while the connection was open, then a client
  message whose write fails: the state in which the endpoint calls
  \<^verbatim>\<open>terminate_process\<close> on its way out.
\<close>

definition orphan_activity :: manager where
  "orphan_activity =
     fst (receive_step ''6f1c'' 0 1 ''{}'' 400 (Raises (OtherError ''[Errno 32] Broken pipe''))
            (Returns ())
            (cleanup_idle_processes all_calm 301
               (fst (get_or_create_process (Returns ()) 0 ''6f1c'' fresh_manager))))"

definition two_workers :: manager where
  "two_workers = fst (get_or_create_process (Returns ()) 200 ''xyz'' one_worker)"

definition busy_day :: "manager_op list" where
  "busy_day =
     [Get_or_create_process (Returns ()) 0 ''abc'', Get_process_lock ''abc'',
      Get_or_create_process (Returns ()) 200 ''xyz'', Get_process_lock ''xyz'',
      Cleanup_idle_processes all_stubborn 400,
      Get_or_create_process (Raises (OtherError ''[Errno 2] No such file or directory'')) 410 ''new'',
      Terminate_process all_calm ''gone'']"

text \<open>Pipes of a worker that has exited, that cannot be written to, and that answers.\<close>

definition hung_up :: pipe_io where
  "hung_up = \<lparr>stdin_write = Returns (), stdin_flush = Returns (), stdout_readline = Returns []\<rparr>"

definition broken_pipe :: pipe_io where
  "broken_pipe =
     \<lparr>stdin_write = Raises (OtherError ''[Errno 32] Broken pipe''), stdin_flush = Returns (),
      stdout_readline = Returns []\<rparr>"


text \<open>A worker that sends two lines and then fails, and one that sends two lines and stops.\<close>

definition crashing_stream :: stream_io where
  "crashing_stream =
     \<lparr>stream_write = Returns (), stream_flush = Returns (),
      stream_readlines =
        [(Returns ''a\<newline>'', 1), (Returns ''b\<newline>'', 2),
         (Raises (OtherError ''read of closed file''), 3)]\<rparr>"

definition quiet_stream :: stream_io where
  "quiet_stream =
     \<lparr>stream_write = Returns (), stream_flush = Returns (),
      stream_readlines = [(Returns ''a\<newline>'', 1), (Returns ''b\<newline>'', 2)]\<rparr>"




section \<open>Facts about terminate_process\<close>

lemma stop_process_calls:
  "fst (stop_process r p) =
     Terminate p #
       (if terminate_result r = Returns ()
        then Wait p 5 # (if wait_result r = Raises TimeoutExpired then [Kill p] else [])
        else [])"
  by (auto simp: stop_process_def split: outcome.splits exn.splits)

lemma terminate_process_registered:
  "map_of (processes s) sid = Some p \<Longrightarrow>
   terminate_process os sid s =
     s\<lparr>processes := AList.delete sid (processes s),
       process_locks := AList.delete sid (process_locks s),
       last_activity := AList.delete sid (last_activity s),
       trace := trace s @ fst (stop_process (os p) p)\<rparr>"
  by (simp add: terminate_process_def)

lemma terminate_process_unregistered:
  "map_of (processes s) sid = None \<Longrightarrow> terminate_process os sid s = s"
  by (simp add: terminate_process_def)

lemma terminate_process_removes:
  "map_of (processes s) sid \<noteq> None \<Longrightarrow>
   map_of (processes (terminate_process os sid s)) sid = None \<and>
   map_of (process_locks (terminate_process os sid s)) sid = None \<and>
   map_of (last_activity (terminate_process os sid s)) sid = None"
  by (auto simp: terminate_process_def AList.delete_conv')

lemma terminate_process_processes_gone [simp]:
  "map_of (processes (terminate_process os sid s)) sid = None"
  by (auto simp: terminate_process_def AList.delete_conv' split: option.splits)

lemma terminate_process_other:
  "k \<noteq> sid \<Longrightarrow>
   map_of (processes (terminate_process os sid s)) k = map_of (processes s) k \<and>
   map_of (process_locks (terminate_process os sid s)) k = map_of (process_locks s) k \<and>
   map_of (last_activity (terminate_process os sid s)) k = map_of (last_activity s) k"
  by (auto simp: terminate_process_def split: option.splits)

lemma terminate_process_fields [simp]:
  "idle_timeout (terminate_process os sid s) = idle_timeout s"
  "heap_next (terminate_process os sid s) = heap_next s"
  "excel_files_path (terminate_process os sid s) = excel_files_path s"
  "cleanup_task (terminate_process os sid s) = cleanup_task s"
  by (auto simp: terminate_process_def split: option.splits)

lemma terminate_process_keeps_None:
  "map_of (processes s) k = None \<Longrightarrow> map_of (processes (terminate_process os sid s)) k = None"
  "map_of (process_locks s) k = None \<Longrightarrow>
     map_of (process_locks (terminate_process os sid s)) k = None"
  "map_of (last_activity s) k = None \<Longrightarrow>
     map_of (last_activity (terminate_process os sid s)) k = None"
  by (auto simp: terminate_process_def AList.delete_conv' split: option.splits)

lemma terminate_process_trace:
  "trace (terminate_process os sid s) = trace s @ reap_calls os s (sid, t)"
  by (simp add: terminate_process_def reap_calls_def split: option.splits)

lemma terminate_process_idem:
  "terminate_process os' sid (terminate_process os sid s) = terminate_process os sid s"
  by (rule terminate_process_unregistered) simp

lemma one_worker_eq:
  "one_worker = \<lparr>processes = [(''abc'', 0)], process_locks = [(''abc'', 1)],
      last_activity = [(''abc'', 0)], excel_files_path = ''/tmp/excel_mcp_files'',
      idle_timeout = 300, cleanup_task = None, heap_next = 2,
      trace = [Popen 0 ''/tmp/excel_mcp_files'']\<rparr>"
  by (simp add: one_worker_def get_or_create_process_def fresh_manager_def
      StdioSubprocessManager_def)

section \<open>C8: terminate_process\<close>

text \<open>
  C8, as the code has it.  For a session id with a registered process,
  \<^verbatim>\<open>terminate_process\<close> calls \<^verbatim>\<open>terminate()\<close>, then \<^verbatim>\<open>wait(timeout=5)\<close> when that
  returned, then \<^verbatim>\<open>kill()\<close> exactly when the wait timed out, and whatever these calls
  do (return or raise) the session id is afterwards absent from the process, lock and
  last-activity maps.  For a session id with no registered process the call changes
  nothing at all.  A second call changes nothing after a first one.  The function has
  no exceptional result.
\<close>

theorem terminate_process_stops_and_unregisters:
  "(map_of (processes s) sid = Some p \<longrightarrow>
      trace (terminate_process os sid s) =
        trace s @ Terminate p #
          (if terminate_result (os p) = Returns ()
           then Wait p 5 # (if wait_result (os p) = Raises TimeoutExpired then [Kill p] else [])
           else []) \<and>
      map_of (processes (terminate_process os sid s)) sid = None \<and>
      map_of (process_locks (terminate_process os sid s)) sid = None \<and>
      map_of (last_activity (terminate_process os sid s)) sid = None) \<and>
   (map_of (processes s) sid = None \<longrightarrow> terminate_process os sid s = s) \<and>
   terminate_process os' sid (terminate_process os sid s) = terminate_process os sid s"
proof (intro conjI impI)
  assume reg: "map_of (processes s) sid = Some p"
  show "trace (terminate_process os sid s) =
        trace s @ Terminate p #
          (if terminate_result (os p) = Returns ()
           then Wait p 5 # (if wait_result (os p) = Raises TimeoutExpired then [Kill p] else [])
           else [])"
    by (simp add: terminate_process_registered [OF reg] stop_process_calls)
  from reg have "map_of (processes s) sid \<noteq> None" by simp
  from terminate_process_removes [OF this]
  show "map_of (processes (terminate_process os sid s)) sid = None"
    and "map_of (process_locks (terminate_process os sid s)) sid = None"
    and "map_of (last_activity (terminate_process os sid s)) sid = None"
    by blast+
next
  assume "map_of (processes s) sid = None"
  then show "terminate_process os sid s = s" by (rule terminate_process_unregistered)
next
  show "terminate_process os' sid (terminate_process os sid s) = terminate_process os sid s"
    by (rule terminate_process_idem)
qed

theorem terminate_process_stops_and_unregisters_witness:
  "map_of (processes one_worker) ''abc'' = Some 0 \<and>
   trace (terminate_process all_stubborn ''abc'' one_worker) =
     [Popen 0 ''/tmp/excel_mcp_files'', Terminate 0, Wait 0 5, Kill 0] \<and>
   trace (terminate_process all_defunct ''abc'' one_worker) =
     [Popen 0 ''/tmp/excel_mcp_files'', Terminate 0] \<and>
   map_of (process_locks (terminate_process all_defunct ''abc'' one_worker)) ''abc'' = None \<and>
   map_of (processes fresh_manager) ''abc'' = None \<and>
   terminate_process all_calm ''abc'' fresh_manager = fresh_manager"
  using terminate_process_stops_and_unregisters [of one_worker "''abc''" 0 all_stubborn all_calm]
    terminate_process_stops_and_unregisters [of one_worker "''abc''" 0 all_defunct all_calm]
    terminate_process_stops_and_unregisters [of fresh_manager "''abc''" 0 all_calm all_calm]
  by (simp add: one_worker_eq all_stubborn_def stubborn_def all_defunct_def defunct_def
      fresh_manager_def StdioSubprocessManager_def)

text \<open>
  The claim says that the session id is absent from the three maps in all cases.  It is
  not when the id has a last-activity entry and no process: the call is then the no-op
  and the entry stays.
\<close>

theorem terminate_process_orphan_counterexample:
  "map_of (processes orphan_activity) ''6f1c'' = None \<and>
   map_of (last_activity (terminate_process all_calm ''6f1c'' orphan_activity)) ''6f1c''
     = Some 400"
  by (simp add: orphan_activity_def receive_step_def cleanup_idle_processes_def
      get_or_create_process_def fresh_manager_def StdioSubprocessManager_def
      terminate_process_def emit_def all_calm_def calm_def stop_process_def)

section \<open>C4: get_or_create_process\<close>

lemma heap_ok_process_older:
  "heap_ok s \<Longrightarrow> (k, p) \<in> set (processes s) \<Longrightarrow> p < heap_next s"
  by (auto simp: heap_ok_def list_all_iff)

lemma heap_ok_lock_older:
  "heap_ok s \<Longrightarrow> (k, l) \<in> set (process_locks s) \<Longrightarrow> l < heap_next s"
  by (auto simp: heap_ok_def list_all_iff)

lemma heap_ok_next_unused:
  assumes "heap_ok s"
  shows "heap_next s \<notin> snd ` set (processes s)"
    and "heap_next s + 1 \<notin> snd ` set (process_locks s)"
  using heap_ok_process_older [OF assms] heap_ok_lock_older [OF assms]
  by force+

lemma get_or_create_process_existing:
  "map_of (processes s) sid = Some p \<Longrightarrow>
   get_or_create_process spawned now sid s =
     (s\<lparr>last_activity := AList.update sid now (last_activity s)\<rparr>, Returns p)"
  by (simp add: get_or_create_process_def)

lemma get_or_create_process_new:
  "map_of (processes s) sid = None \<Longrightarrow>
   get_or_create_process (Returns ()) now sid s =
     (s\<lparr>processes := AList.update sid (heap_next s) (processes s),
        process_locks := AList.update sid (heap_next s + 1) (process_locks s),
        last_activity := AList.update sid now (last_activity s),
        heap_next := heap_next s + 2,
        trace := trace s @ [Popen (heap_next s) (excel_files_path s)]\<rparr>,
      Returns (heap_next s))"
  by (simp add: get_or_create_process_def Let_def)

lemma get_or_create_process_launch_failure:
  "map_of (processes s) sid = None \<Longrightarrow>
   get_or_create_process (Raises e) now sid s = (s, Raises e)"
  by (simp add: get_or_create_process_def)

lemma heap_ok_one_worker: "heap_ok one_worker"
  by (simp add: one_worker_eq heap_ok_def)

text \<open>
  C4.  In a registry whose objects are older than the next object identity (every
  reachable registry is): a registered session id gets its registered process back, and
  the call changes nothing but the session's last-activity time, so nothing is spawned.
  An unregistered session id, when \<^verbatim>\<open>Popen\<close> succeeds, gets a process that no session
  holds, launched by exactly one \<^verbatim>\<open>Popen\<close> call, and registered together with a lock that
  no session holds and the clock reading.  After \<^verbatim>\<open>terminate_process\<close> has removed a
  session's worker, the next call for the same id launches a process different from the
  removed one.
\<close>

theorem get_or_create_process_resolves:
  assumes ok: "heap_ok s"
  shows "(map_of (processes s) sid = Some p \<longrightarrow>
            get_or_create_process spawned now sid s =
              (s\<lparr>last_activity := AList.update sid now (last_activity s)\<rparr>, Returns p)) \<and>
         (map_of (processes s) sid = None \<longrightarrow>
            snd (get_or_create_process (Returns ()) now sid s) = Returns (heap_next s) \<and>
            heap_next s \<notin> snd ` set (processes s) \<and>
            heap_next s + 1 \<notin> snd ` set (process_locks s) \<and>
            trace (fst (get_or_create_process (Returns ()) now sid s)) =
              trace s @ [Popen (heap_next s) (excel_files_path s)] \<and>
            map_of (processes (fst (get_or_create_process (Returns ()) now sid s))) sid
              = Some (heap_next s) \<and>
            map_of (process_locks (fst (get_or_create_process (Returns ()) now sid s))) sid
              = Some (heap_next s + 1) \<and>
            map_of (last_activity (fst (get_or_create_process (Returns ()) now sid s))) sid
              = Some now) \<and>
         (map_of (processes s) sid = Some p \<longrightarrow>
            snd (get_or_create_process (Returns ()) now sid (terminate_process os sid s))
              = Returns (heap_next s) \<and>
            heap_next s \<noteq> p \<and>
            trace (fst (get_or_create_process (Returns ()) now sid (terminate_process os sid s)))
              = trace (terminate_process os sid s) @ [Popen (heap_next s) (excel_files_path s)])"
proof (intro conjI impI)
  assume "map_of (processes s) sid = Some p"
  then show "get_or_create_process spawned now sid s =
      (s\<lparr>last_activity := AList.update sid now (last_activity s)\<rparr>, Returns p)"
    by (rule get_or_create_process_existing)
next
  assume none: "map_of (processes s) sid = None"
  note new = get_or_create_process_new [OF none, of now]
  show "snd (get_or_create_process (Returns ()) now sid s) = Returns (heap_next s)"
    by (simp add: new)
  show "heap_next s \<notin> snd ` set (processes s)"
    by (rule heap_ok_next_unused [OF ok])
  show "heap_next s + 1 \<notin> snd ` set (process_locks s)"
    by (rule heap_ok_next_unused [OF ok])
  show "trace (fst (get_or_create_process (Returns ()) now sid s)) =
      trace s @ [Popen (heap_next s) (excel_files_path s)]"
    by (simp add: new)
  show "map_of (processes (fst (get_or_create_process (Returns ()) now sid s))) sid
      = Some (heap_next s)"
    by (simp add: new AList.update_conv')
  show "map_of (process_locks (fst (get_or_create_process (Returns ()) now sid s))) sid
      = Some (heap_next s + 1)"
    by (simp add: new AList.update_conv')
  show "map_of (last_activity (fst (get_or_create_process (Returns ()) now sid s))) sid
      = Some now"
    by (simp add: new AList.update_conv')
next
  assume reg: "map_of (processes s) sid = Some p"
  have gone: "map_of (processes (terminate_process os sid s)) sid = None"
    by simp
  note new = get_or_create_process_new [OF gone, of now]
  show "snd (get_or_create_process (Returns ()) now sid (terminate_process os sid s))
      = Returns (heap_next s)"
    by (simp add: new)
  from reg have "(sid, p) \<in> set (processes s)"
    by (rule map_of_SomeD)
  with ok have "p < heap_next s"
    by (rule heap_ok_process_older)
  then show "heap_next s \<noteq> p"
    by simp
  show "trace (fst (get_or_create_process (Returns ()) now sid (terminate_process os sid s)))
      = trace (terminate_process os sid s) @ [Popen (heap_next s) (excel_files_path s)]"
    by (simp add: new)
qed

theorem get_or_create_process_resolves_witness:
  "heap_ok one_worker \<and>
   map_of (processes one_worker) ''abc'' = Some 0 \<and>
   get_or_create_process (Returns ()) 7 ''abc'' one_worker =
     (one_worker\<lparr>last_activity := [(''abc'', 7)]\<rparr>, Returns 0) \<and>
   map_of (processes one_worker) ''xyz'' = None \<and>
   snd (get_or_create_process (Returns ()) 7 ''xyz'' one_worker) = Returns 2 \<and>
   snd (get_or_create_process (Returns ()) 7 ''abc''
          (terminate_process all_calm ''abc'' one_worker)) = Returns 2"
  using get_or_create_process_resolves [OF heap_ok_one_worker, of "''abc''" 0 "Returns ()" 7 all_calm]
    get_or_create_process_resolves [OF heap_ok_one_worker, of "''xyz''" 0 "Returns ()" 7 all_calm]
  by (simp add: one_worker_eq heap_ok_def)


section \<open>C5: cleanup_idle_processes\<close>

lemma cleanup_loop_idle_timeout [simp]:
  "idle_timeout (cleanup_loop os now items s) = idle_timeout s"
  by (induction items arbitrary: s) auto

lemma cleanup_loop_untouched:
  assumes "\<And>t. (sid, t) \<in> set items \<Longrightarrow> \<not> now - t > idle_timeout s"
  shows "map_of (processes (cleanup_loop os now items s)) sid = map_of (processes s) sid \<and>
         map_of (process_locks (cleanup_loop os now items s)) sid = map_of (process_locks s) sid \<and>
         map_of (last_activity (cleanup_loop os now items s)) sid = map_of (last_activity s) sid"
  using assms
proof (induction items arbitrary: s)
  case Nil
  show ?case by simp
next
  case (Cons item items)
  obtain k t where item: "item = (k, t)" by (cases item)
  let ?s1 = "if now - t > idle_timeout s then terminate_process os k s else s"
  have same: "map_of (processes ?s1) sid = map_of (processes s) sid \<and>
              map_of (process_locks ?s1) sid = map_of (process_locks s) sid \<and>
              map_of (last_activity ?s1) sid = map_of (last_activity s) sid"
  proof (cases "now - t > idle_timeout s")
    case True
    with Cons.prems [of t] item have "sid \<noteq> k" by auto
    then show ?thesis using True by (simp add: terminate_process_other)
  next
    case False
    then show ?thesis by simp
  qed
  have "\<And>t'. (sid, t') \<in> set items \<Longrightarrow> \<not> now - t' > idle_timeout ?s1"
    using Cons.prems by simp
  from Cons.IH [OF this] same show ?case
    by (simp add: item)
qed

lemma cleanup_loop_keeps_None:
  assumes "map_of (processes s) sid = None"
    and "map_of (process_locks s) sid = None"
    and "map_of (last_activity s) sid = None"
  shows "map_of (processes (cleanup_loop os now items s)) sid = None \<and>
         map_of (process_locks (cleanup_loop os now items s)) sid = None \<and>
         map_of (last_activity (cleanup_loop os now items s)) sid = None"
  using assms
proof (induction items arbitrary: s)
  case Nil
  then show ?case by simp
next
  case (Cons item items)
  obtain k t where item: "item = (k, t)" by (cases item)
  show ?case
    using Cons.IH [of "terminate_process os k s"] Cons.IH [of s] Cons.prems
    by (simp add: item terminate_process_keeps_None)
qed

lemma cleanup_loop_reaps:
  assumes "(sid, t) \<in> set items" and "now - t > idle_timeout s"
    and "map_of (processes s) sid \<noteq> None"
  shows "map_of (processes (cleanup_loop os now items s)) sid = None \<and>
         map_of (process_locks (cleanup_loop os now items s)) sid = None \<and>
         map_of (last_activity (cleanup_loop os now items s)) sid = None"
  using assms
proof (induction items arbitrary: s)
  case Nil
  then show ?case by simp
next
  case (Cons item items)
  obtain k t' where item: "item = (k, t')" by (cases item)
  show ?case
  proof (cases "k = sid \<and> now - t' > idle_timeout s")
    case True
    from terminate_process_removes [OF Cons.prems(3), of os]
    have "map_of (processes (cleanup_loop os now items (terminate_process os sid s))) sid = None \<and>
          map_of (process_locks (cleanup_loop os now items (terminate_process os sid s))) sid = None \<and>
          map_of (last_activity (cleanup_loop os now items (terminate_process os sid s))) sid = None"
      by (intro cleanup_loop_keeps_None) simp_all
    with True show ?thesis by (simp add: item)
  next
    case False
    let ?s1 = "if now - t' > idle_timeout s then terminate_process os k s else s"
    from False Cons.prems item have mem: "(sid, t) \<in> set items" by auto
    have idle: "now - t > idle_timeout ?s1" using Cons.prems(2) by simp
    have reg: "map_of (processes ?s1) sid \<noteq> None"
      using False Cons.prems(3) by (auto simp: terminate_process_other)
    from Cons.IH [OF mem idle reg] show ?thesis by (simp add: item)
  qed
qed

lemma reap_calls_other:
  "fst item \<noteq> k \<Longrightarrow> reap_calls os (terminate_process os' k s) item = reap_calls os s item"
  by (simp add: reap_calls_def terminate_process_other)

lemma cleanup_loop_trace:
  assumes "distinct (map fst items)"
  shows "trace (cleanup_loop os now items s) =
     trace s @ concat (map (reap_calls os s)
                         (filter (\<lambda>(k, t). now - t > idle_timeout s) items))"
  using assms
proof (induction items arbitrary: s)
  case Nil
  show ?case by simp
next
  case (Cons item items)
  obtain k t where item: "item = (k, t)" by (cases item)
  let ?s1 = "if now - t > idle_timeout s then terminate_process os k s else s"
  from Cons.prems item have fresh: "\<And>x. x \<in> set items \<Longrightarrow> fst x \<noteq> k"
    and dist: "distinct (map fst items)" by auto
  have calls: "map (reap_calls os ?s1) (filter (\<lambda>(k, t). now - t > idle_timeout s) items)
      = map (reap_calls os s) (filter (\<lambda>(k, t). now - t > idle_timeout s) items)"
    by (rule map_cong) (auto simp: reap_calls_other dest: fresh)
  have "trace (cleanup_loop os now (item # items) s) = trace (cleanup_loop os now items ?s1)"
    by (simp add: item)
  also have "\<dots> = trace ?s1 @ concat (map (reap_calls os ?s1)
                         (filter (\<lambda>(k, t). now - t > idle_timeout s) items))"
    using Cons.IH [OF dist, of ?s1] by simp
  also have "trace ?s1 = trace s @ (if now - t > idle_timeout s then reap_calls os s (k, t) else [])"
    by (simp add: terminate_process_trace [of os k s t])
  finally show ?case
    by (simp add: item calls)
qed

lemma two_workers_eq:
  "two_workers = \<lparr>processes = [(''abc'', 0), (''xyz'', 2)],
      process_locks = [(''abc'', 1), (''xyz'', 3)],
      last_activity = [(''abc'', 0), (''xyz'', 200)],
      excel_files_path = ''/tmp/excel_mcp_files'',
      idle_timeout = 300, cleanup_task = None, heap_next = 4,
      trace = [Popen 0 ''/tmp/excel_mcp_files'', Popen 2 ''/tmp/excel_mcp_files'']\<rparr>"
  by (simp add: two_workers_def one_worker_eq get_or_create_process_def)

lemma cleanup_loop_unregistered:
  assumes "map_of (processes s) sid = None"
  shows "map_of (processes (cleanup_loop os now items s)) sid = None \<and>
         map_of (process_locks (cleanup_loop os now items s)) sid = map_of (process_locks s) sid \<and>
         map_of (last_activity (cleanup_loop os now items s)) sid = map_of (last_activity s) sid"
  using assms
proof (induction items arbitrary: s)
  case Nil
  then show ?case by simp
next
  case (Cons item items)
  obtain k t where item: "item = (k, t)" by (cases item)
  let ?s1 = "if now - t > idle_timeout s then terminate_process os k s else s"
  have same: "map_of (processes ?s1) sid = None \<and>
              map_of (process_locks ?s1) sid = map_of (process_locks s) sid \<and>
              map_of (last_activity ?s1) sid = map_of (last_activity s) sid"
  proof (cases "k = sid")
    case True
    with Cons.prems show ?thesis
      by (simp add: terminate_process_unregistered)
  next
    case False
    then have "sid \<noteq> k" by simp
    with Cons.prems show ?thesis
      by (simp add: terminate_process_other)
  qed
  then have "map_of (processes ?s1) sid = None" by simp
  from Cons.IH [OF this] same show ?case
    by (simp add: item)
qed

text \<open>
  C5, as the code has it.  In a registry with the timeout of 300 set by \<^verbatim>\<open>__init__\<close>
  (the keys of a dictionary are distinct), one scan at clock reading \<open>now\<close> terminates
  and removes every session that has a process and whose last activity is more than 300
  before \<open>now\<close>; it leaves the process, the lock and the last-activity time of every
  session whose last activity is at most 300 before \<open>now\<close> as they were; it leaves the
  lock and the last-activity time of a session id that has no process as they were,
  however old; and the calls it makes are exactly the termination calls for the idle
  items, in the order of the dictionary.
\<close>

theorem cleanup_idle_processes_reaps_exactly_idle:
  assumes dist: "distinct (map fst (last_activity s))"
    and timeout: "idle_timeout s = 300"
  shows "(map_of (processes s) sid = Some p \<and> map_of (last_activity s) sid = Some t \<and>
          now - t > 300 \<longrightarrow>
            Terminate p \<in> set (trace (cleanup_idle_processes os now s)) \<and>
            map_of (processes (cleanup_idle_processes os now s)) sid = None \<and>
            map_of (process_locks (cleanup_idle_processes os now s)) sid = None \<and>
            map_of (last_activity (cleanup_idle_processes os now s)) sid = None) \<and>
         (map_of (last_activity s) sid = Some t \<and> \<not> now - t > 300 \<longrightarrow>
            map_of (processes (cleanup_idle_processes os now s)) sid = map_of (processes s) sid \<and>
            map_of (process_locks (cleanup_idle_processes os now s)) sid
              = map_of (process_locks s) sid \<and>
            map_of (last_activity (cleanup_idle_processes os now s)) sid = Some t) \<and>
         (map_of (processes s) sid = None \<longrightarrow>
            map_of (processes (cleanup_idle_processes os now s)) sid = None \<and>
            map_of (process_locks (cleanup_idle_processes os now s)) sid
              = map_of (process_locks s) sid \<and>
            map_of (last_activity (cleanup_idle_processes os now s)) sid
              = map_of (last_activity s) sid) \<and>
         trace (cleanup_idle_processes os now s) =
           trace s @ concat (map (reap_calls os s)
                               (filter (\<lambda>(k, t). now - t > 300) (last_activity s)))"
proof (intro conjI impI)
  show tr: "trace (cleanup_idle_processes os now s) =
      trace s @ concat (map (reap_calls os s)
                          (filter (\<lambda>(k, t). now - t > 300) (last_activity s)))"
    using cleanup_loop_trace [OF dist, of os now s]
    by (simp add: cleanup_idle_processes_def timeout)
  {
    assume idle: "map_of (processes s) sid = Some p \<and> map_of (last_activity s) sid = Some t \<and>
          now - t > 300"
    then have mem: "(sid, t) \<in> set (last_activity s)"
      by (auto dest: map_of_SomeD)
    from idle have late: "now - t > idle_timeout s" and reg: "map_of (processes s) sid \<noteq> None"
      by (simp_all add: timeout)
    from cleanup_loop_reaps [OF mem late reg, of os]
    show "map_of (processes (cleanup_idle_processes os now s)) sid = None"
      and "map_of (process_locks (cleanup_idle_processes os now s)) sid = None"
      and "map_of (last_activity (cleanup_idle_processes os now s)) sid = None"
      by (simp_all add: cleanup_idle_processes_def)
    from mem idle have "(sid, t) \<in> set (filter (\<lambda>(k, t). now - t > 300) (last_activity s))"
      by simp
    moreover from idle have "Terminate p \<in> set (reap_calls os s (sid, t))"
      by (simp add: reap_calls_def stop_process_calls)
    ultimately show "Terminate p \<in> set (trace (cleanup_idle_processes os now s))"
      unfolding tr by (auto intro: bexI [of _ "(sid, t)"])
  }
  {
    assume fresh: "map_of (last_activity s) sid = Some t \<and> \<not> now - t > 300"
    have "\<And>t'. (sid, t') \<in> set (last_activity s) \<Longrightarrow> \<not> now - t' > idle_timeout s"
    proof -
      fix t' assume "(sid, t') \<in> set (last_activity s)"
      with dist have "map_of (last_activity s) sid = Some t'" by simp
      with fresh show "\<not> now - t' > idle_timeout s" by (simp add: timeout)
    qed
    from cleanup_loop_untouched [OF this, where os = os] fresh
    show "map_of (processes (cleanup_idle_processes os now s)) sid = map_of (processes s) sid"
      and "map_of (process_locks (cleanup_idle_processes os now s)) sid
              = map_of (process_locks s) sid"
      and "map_of (last_activity (cleanup_idle_processes os now s)) sid = Some t"
      by (simp_all add: cleanup_idle_processes_def)
  }
  {
    assume "map_of (processes s) sid = None"
    from cleanup_loop_unregistered [OF this, of os now "last_activity s"]
    show "map_of (processes (cleanup_idle_processes os now s)) sid = None"
      and "map_of (process_locks (cleanup_idle_processes os now s)) sid
              = map_of (process_locks s) sid"
      and "map_of (last_activity (cleanup_idle_processes os now s)) sid
              = map_of (last_activity s) sid"
      by (simp_all add: cleanup_idle_processes_def)
  }
qed

lemma two_workers_distinct: "distinct (map fst (last_activity two_workers))"
  by (simp add: two_workers_eq)

lemma two_workers_timeout: "idle_timeout two_workers = 300"
  by (simp add: two_workers_eq)

theorem cleanup_idle_processes_reaps_exactly_idle_witness:
  "distinct (map fst (last_activity two_workers)) \<and> idle_timeout two_workers = 300 \<and>
   map_of (processes two_workers) ''abc'' = Some 0 \<and>
   map_of (last_activity two_workers) ''abc'' = Some 0 \<and> (400::real) - 0 > 300 \<and>
   map_of (processes (cleanup_idle_processes all_stubborn 400 two_workers)) ''abc'' = None \<and>
   map_of (last_activity two_workers) ''xyz'' = Some 200 \<and> \<not> (400::real) - 200 > 300 \<and>
   map_of (processes (cleanup_idle_processes all_stubborn 400 two_workers)) ''xyz'' = Some 2 \<and>
   map_of (processes two_workers) ''new'' = None \<and>
   map_of (last_activity (cleanup_idle_processes all_stubborn 400 two_workers)) ''new'' = None \<and>
   trace (cleanup_idle_processes all_stubborn 400 two_workers) =
     [Popen 0 ''/tmp/excel_mcp_files'', Popen 2 ''/tmp/excel_mcp_files'',
      Terminate 0, Wait 0 5, Kill 0]"
  using cleanup_idle_processes_reaps_exactly_idle
      [OF two_workers_distinct two_workers_timeout, of "''abc''" 0 0 400 all_stubborn]
    cleanup_idle_processes_reaps_exactly_idle
      [OF two_workers_distinct two_workers_timeout, of "''xyz''" 2 200 400 all_stubborn]
    cleanup_idle_processes_reaps_exactly_idle
      [OF two_workers_distinct two_workers_timeout, of "''new''" 0 0 400 all_stubborn]
  by (simp add: two_workers_eq reap_calls_def all_stubborn_def stubborn_def stop_process_def)

text \<open>
  The claim says that every entry whose idle time exceeds the timeout is terminated and
  removed.  The last-activity entry of a session id that has no process is not: in the
  registry that a reaped duplex connection leaves behind, the entry of time 400 is still
  there after a scan at time 100000, and the scan has made no call.
\<close>

theorem cleanup_idle_processes_orphan_counterexample:
  "map_of (last_activity orphan_activity) ''6f1c'' = Some 400 \<and>
   (100000::real) - 400 > 300 \<and>
   map_of (last_activity (cleanup_idle_processes all_calm 100000 orphan_activity)) ''6f1c''
     = Some 400 \<and>
   trace (cleanup_idle_processes all_calm 100000 orphan_activity) = trace orphan_activity"
  by (simp add: orphan_activity_def receive_step_def cleanup_idle_processes_def
      get_or_create_process_def fresh_manager_def StdioSubprocessManager_def
      terminate_process_def emit_def all_calm_def calm_def stop_process_def)


section \<open>C9: the keys of the three maps\<close>

lemma keys_update [simp]: "keys (AList.update k v d) = insert k (keys d)"
  by (simp add: keys_def AList.dom_update)

lemma keys_delete [simp]: "keys (AList.delete k d) = keys d - {k}"
proof -
  have "keys (AList.delete k d) = set (map fst (AList.delete k d))"
    by (simp add: keys_def)
  also have "\<dots> = set (map fst d) - {k}"
    by (simp add: AList.delete_keys)
  finally show ?thesis by (simp add: keys_def)
qed

lemma keys_Nil [simp]: "keys [] = {}"
  by (simp add: keys_def)

lemma in_keys_iff: "k \<in> keys d \<longleftrightarrow> map_of d k \<noteq> None"
  by (simp add: keys_def map_of_eq_None_iff)

lemma terminate_process_sound:
  "registry_sound s \<Longrightarrow> registry_sound (terminate_process os sid s)"
  by (auto simp: registry_sound_def terminate_process_def split: option.splits)

lemma terminate_process_in_step:
  "registry_in_step s \<Longrightarrow> registry_in_step (terminate_process os sid s)"
  by (auto simp: registry_in_step_def terminate_process_def split: option.splits)

lemma cleanup_loop_sound:
  "registry_sound s \<Longrightarrow> registry_sound (cleanup_loop os now items s)"
  by (induction items arbitrary: s) (auto simp: terminate_process_sound)

lemma cleanup_loop_in_step:
  "registry_in_step s \<Longrightarrow> registry_in_step (cleanup_loop os now items s)"
  by (induction items arbitrary: s) (auto simp: terminate_process_in_step)

lemma fold_terminate_sound:
  "registry_sound s \<Longrightarrow> registry_sound (fold (terminate_process os) ks s)"
  by (induction ks arbitrary: s) (auto simp: terminate_process_sound)

lemma fold_terminate_in_step:
  "registry_in_step s \<Longrightarrow> registry_in_step (fold (terminate_process os) ks s)"
  by (induction ks arbitrary: s) (auto simp: terminate_process_in_step)

lemma terminate_all_sound:
  "registry_sound s \<Longrightarrow> registry_sound (terminate_all os s)"
  using fold_terminate_sound [of s os "map fst (processes s)"]
  by (auto simp: terminate_all_def Let_def registry_sound_def split: option.splits)

lemma terminate_all_in_step:
  "registry_in_step s \<Longrightarrow> registry_in_step (terminate_all os s)"
  using fold_terminate_in_step [of s os "map fst (processes s)"]
  by (auto simp: terminate_all_def Let_def registry_in_step_def split: option.splits)

lemma get_or_create_process_sound:
  "registry_sound s \<Longrightarrow> registry_sound (fst (get_or_create_process spawned now sid s))"
  by (auto simp: registry_sound_def get_or_create_process_def Let_def in_keys_iff
      split: option.splits outcome.splits)

lemma get_or_create_process_in_step:
  "registry_in_step s \<Longrightarrow> registry_in_step (fst (get_or_create_process spawned now sid s))"
  by (auto simp: registry_in_step_def get_or_create_process_def Let_def in_keys_iff
      split: option.splits outcome.splits)

lemma get_process_lock_sound:
  "registry_sound s \<Longrightarrow> registry_sound (fst (get_process_lock sid s))"
  by (auto simp: registry_sound_def get_process_lock_def split: option.splits)

lemma get_process_lock_in_step:
  "registry_in_step s \<Longrightarrow> map_of (processes s) sid \<noteq> None \<Longrightarrow>
   registry_in_step (fst (get_process_lock sid s))"
  by (auto simp: registry_in_step_def get_process_lock_def in_keys_iff split: option.splits)

lemma apply_op_sound: "registry_sound s \<Longrightarrow> registry_sound (apply_op op s)"
  by (cases op)
    (simp_all add: get_or_create_process_sound get_process_lock_sound terminate_process_sound
      cleanup_loop_sound cleanup_idle_processes_def terminate_all_sound)

lemma run_ops_sound: "registry_sound s \<Longrightarrow> registry_sound (run_ops ops s)"
  unfolding run_ops_def by (induction ops arbitrary: s) (simp_all add: apply_op_sound)

lemma run_ops_in_step:
  "registry_in_step s \<Longrightarrow> locks_after_resolve ops s \<Longrightarrow> registry_in_step (run_ops ops s)"
  unfolding run_ops_def
proof (induction ops arbitrary: s)
  case Nil
  then show ?case by simp
next
  case (Cons op ops)
  have step: "registry_in_step (apply_op op s)" and rest: "locks_after_resolve ops (apply_op op s)"
    using Cons.prems
    by (cases op; simp add: get_or_create_process_in_step get_process_lock_in_step
        terminate_process_in_step cleanup_loop_in_step cleanup_idle_processes_def
        terminate_all_in_step)+
  from Cons.IH [OF step rest] show ?case by simp
qed

lemma StdioSubprocessManager_in_step:
  "registry_in_step (StdioSubprocessManager path)" "registry_sound (StdioSubprocessManager path)"
  by (simp_all add: registry_in_step_def registry_sound_def StdioSubprocessManager_def)

text \<open>
  C9, as the code has it.  After any sequence of the five operations on a new manager,
  the process map and the last-activity map have the same keys and every one of them
  has a lock.  The lock map has exactly these keys when every \<^verbatim>\<open>get_process_lock\<close> of
  the sequence was called for a session id that had a process at that moment.
\<close>

theorem run_ops_keys_in_step:
  "keys (processes (run_ops ops (StdioSubprocessManager path)))
     = keys (last_activity (run_ops ops (StdioSubprocessManager path))) \<and>
   keys (processes (run_ops ops (StdioSubprocessManager path)))
     \<subseteq> keys (process_locks (run_ops ops (StdioSubprocessManager path))) \<and>
   (locks_after_resolve ops (StdioSubprocessManager path) \<longrightarrow>
      keys (process_locks (run_ops ops (StdioSubprocessManager path)))
        = keys (processes (run_ops ops (StdioSubprocessManager path))))"
  using run_ops_sound [OF StdioSubprocessManager_in_step(2), of ops path]
    run_ops_in_step [OF StdioSubprocessManager_in_step(1), of ops path]
  by (auto simp: registry_sound_def registry_in_step_def)

theorem run_ops_keys_in_step_witness:
  "locks_after_resolve busy_day (StdioSubprocessManager ''/tmp/excel_mcp_files'') \<and>
   keys (process_locks (run_ops busy_day (StdioSubprocessManager ''/tmp/excel_mcp_files'')))
     = {''xyz''} \<and>
   keys (processes (run_ops busy_day (StdioSubprocessManager ''/tmp/excel_mcp_files'')))
     = {''xyz''}"
  using run_ops_keys_in_step [of busy_day "''/tmp/excel_mcp_files''"]
  by (simp add: busy_day_def run_ops_def StdioSubprocessManager_def get_or_create_process_def
      get_process_lock_def cleanup_idle_processes_def terminate_process_def keys_def
      all_stubborn_def stubborn_def stop_process_def)

text \<open>
  The claim allows any sequence.  \<^verbatim>\<open>get_process_lock\<close> for a session id without a
  process makes a lock for it, and the three maps no longer have the same keys.
\<close>

theorem get_process_lock_orphan_counterexample:
  "keys (process_locks (run_ops [Get_process_lock ''abc''] (StdioSubprocessManager ''/tmp/excel_mcp_files'')))
     \<noteq> keys (processes (run_ops [Get_process_lock ''abc''] (StdioSubprocessManager ''/tmp/excel_mcp_files'')))"
  by (simp add: run_ops_def StdioSubprocessManager_def get_process_lock_def keys_def)


section \<open>C3: a unary exchange that fails\<close>

lemma emit_fields [simp]:
  "processes (emit cs s) = processes s"
  "process_locks (emit cs s) = process_locks s"
  "last_activity (emit cs s) = last_activity s"
  "idle_timeout (emit cs s) = idle_timeout s"
  "heap_next (emit cs s) = heap_next s"
  "excel_files_path (emit cs s) = excel_files_path s"
  "trace (emit cs s) = trace s @ cs"
  by (simp_all add: emit_def)

lemma get_process_lock_fields:
  assumes "get_process_lock sid s = (s', l)"
  shows "processes s' = processes s" and "last_activity s' = last_activity s"
    and "trace s' = trace s" and "idle_timeout s' = idle_timeout s"
    and "map_of (process_locks s') sid = Some l"
  using assms by (auto simp: get_process_lock_def AList.update_conv' split: option.splits)

lemma get_or_create_process_Returns:
  assumes "get_or_create_process spawned now sid s = (s', Returns p)"
  shows "map_of (processes s') sid = Some p" and "map_of (last_activity s') sid = Some now"
    and "idle_timeout s' = idle_timeout s"
    and "filter is_write (trace s') = filter is_write (trace s)"
    and "length (filter is_popen (trace s')) =
           length (filter is_popen (trace s)) + (if map_of (processes s) sid = None then 1 else 0)"
  using assms
  by (auto simp: get_or_create_process_def Let_def AList.update_conv'
      split: option.splits outcome.splits)

lemma get_or_create_process_Raises:
  assumes "get_or_create_process spawned now sid s = (s', Raises e)"
  shows "s' = s" and "spawned = Raises e" and "map_of (processes s) sid = None"
  using assms
  by (auto simp: get_or_create_process_def Let_def split: option.splits outcome.splits)

lemma stop_process_no_write [simp]:
  "filter is_write (fst (stop_process r p)) = []"
  "filter is_popen (fst (stop_process r p)) = []"
  by (simp_all add: stop_process_calls)

lemma terminate_process_no_write [simp]:
  "filter is_write (trace (terminate_process os sid s)) = filter is_write (trace s)"
  "filter is_popen (trace (terminate_process os sid s)) = filter is_popen (trace s)"
  by (simp_all add: terminate_process_def split: option.splits)

lemma terminate_process_clears:
  assumes "map_of (processes s) sid \<noteq> None \<or>
           map_of (process_locks s) sid = None \<and> map_of (last_activity s) sid = None"
  shows "map_of (process_locks (terminate_process os sid s)) sid = None"
    and "map_of (last_activity (terminate_process os sid s)) sid = None"
  using assms terminate_process_removes [of s sid os] terminate_process_keeps_None [of s sid os sid]
  by auto

text \<open>What the locked body leaves when the exchange fails.\<close>

lemma locked_exchange_failed:
  assumes "exchange_failed io" and "map_of (processes s) sid = Some p"
    and "with_lock l (locked_exchange json os io sid p body) s = (s', r)"
  shows "\<exists>e. r = Raises e"
    and "map_of (processes s') sid \<noteq> None \<or>
           map_of (process_locks s') sid = None \<and> map_of (last_activity s') sid = None"
    and "filter is_write (trace s') = filter is_write (trace s) @ [Stdin_write p (body @ ''\<newline>'')]"
    and "filter is_popen (trace s') = filter is_popen (trace s)"
  using assms
  by (auto simp: exchange_failed_def with_lock_def locked_exchange_def Let_def
      terminate_process_clears split: outcome.splits if_splits)

lemma stop_process_terminate_once [simp]:
  "filter is_terminate (fst (stop_process r p)) = [Terminate p]"
  by (simp add: stop_process_calls)

lemma terminate_process_terminates:
  "map_of (processes s) sid = Some p \<Longrightarrow>
   filter is_terminate (trace (terminate_process os sid s))
     = filter is_terminate (trace s) @ [Terminate p]"
  by (simp add: terminate_process_registered)

lemma get_or_create_process_no_terminate:
  assumes "get_or_create_process spawned now sid s = (s', r)"
  shows "filter is_terminate (trace s') = filter is_terminate (trace s)"
  using assms
  by (auto simp: get_or_create_process_def Let_def split: option.splits outcome.splits)

lemma locked_exchange_failed_terminate:
  assumes "exchange_failed io" and "map_of (processes s) sid = Some p"
    and "with_lock l (locked_exchange json os io sid p body) s = (s', r)"
  shows "map_of (processes s') sid = Some p \<and>
           filter is_terminate (trace s') = filter is_terminate (trace s) \<or>
         map_of (processes s') sid = None \<and>
           filter is_terminate (trace s') = filter is_terminate (trace s) @ [Terminate p]"
  using assms
  by (auto simp: exchange_failed_def with_lock_def locked_exchange_def Let_def
      terminate_process_terminates split: outcome.splits if_splits)

lemma terminate_process_after_failed:
  assumes "map_of (processes s) sid = Some p \<and>
           filter is_terminate (trace s) = ts \<or>
         map_of (processes s) sid = None \<and>
           filter is_terminate (trace s) = ts @ [Terminate p]"
  shows "filter is_terminate (trace (terminate_process os sid s)) = ts @ [Terminate p]"
  using assms
  by (auto simp: terminate_process_terminates terminate_process_unregistered)

text \<open>
  C3.  When \<^verbatim>\<open>Popen\<close> is able to start a worker and the exchange of a unary request
  fails (the write, the flush or the read raises, or the read returns the empty byte
  string), the handler raises \<open>HTTPException\<close> with status 500, it has called
  \<^verbatim>\<open>terminate()\<close> on the session's worker exactly once, the session id is
  afterwards absent from the process, lock and last-activity maps, the request body was
  written to a worker exactly once and a worker was launched only if the session had
  none, so nothing was retried; and the next \<^verbatim>\<open>get_or_create_process\<close> for the same
  session id starts a new worker.
\<close>

theorem handle_request_failed_exchange:
  assumes spawn: "popen ev = Returns ()" and failed: "exchange_failed io"
    and run: "handle_request json os ev io header body s = (s', r)"
  shows "http_status r = 500 \<and> (\<exists>detail. r = Raises (HTTPException 500 detail)) \<and>
         (\<exists>p. snd (get_or_create_process (popen ev) (clock ev)
                       (session_header header (uuid4 ev)) s) = Returns p \<and>
              filter is_terminate (trace s') = filter is_terminate (trace s) @ [Terminate p]) \<and>
         map_of (processes s') (session_header header (uuid4 ev)) = None \<and>
         map_of (process_locks s') (session_header header (uuid4 ev)) = None \<and>
         map_of (last_activity s') (session_header header (uuid4 ev)) = None \<and>
         length (filter is_write (trace s')) = length (filter is_write (trace s)) + 1 \<and>
         length (filter is_popen (trace s')) =
           length (filter is_popen (trace s)) +
             (if map_of (processes s) (session_header header (uuid4 ev)) = None then 1 else 0) \<and>
         snd (get_or_create_process (Returns ()) now (session_header header (uuid4 ev)) s')
           = Returns (heap_next s')"
proof -
  let ?sid = "session_header header (uuid4 ev)"
  obtain s1 r1 where res: "get_or_create_process (popen ev) (clock ev) ?sid s = (s1, r1)"
    by (cases "get_or_create_process (popen ev) (clock ev) ?sid s")
  have "\<exists>p. r1 = Returns p"
  proof (cases r1)
    case (Raises e)
    with res spawn get_or_create_process_Raises(2) [of "popen ev" "clock ev" ?sid s s1 e]
    show ?thesis by simp
  qed simp
  then obtain p where r1: "r1 = Returns p" ..
  note created = get_or_create_process_Returns [OF res [unfolded r1]]
  obtain s2 l where lock: "get_process_lock ?sid s1 = (s2, l)"
    by (cases "get_process_lock ?sid s1")
  note locked = get_process_lock_fields [OF lock]
  obtain s3 r3 where body: "with_lock l (locked_exchange json os io ?sid p body) s2 = (s3, r3)"
    by (cases "with_lock l (locked_exchange json os io ?sid p body) s2")
  have reg2: "map_of (processes s2) ?sid = Some p"
    using created(1) locked(1) by simp
  note fail = locked_exchange_failed [OF failed reg2 body]
  from fail(1) obtain e where r3: "r3 = Raises e" ..
  have final: "s' = terminate_process os ?sid s3"
    "r = Raises (HTTPException 500 (''Error processing request: '' @ str_exn e))"
    using run res r1 lock body r3 by (simp_all add: handle_request_def Let_def)
  have gone: "map_of (processes s') ?sid = None"
    by (simp add: final)
  have "filter is_terminate (trace s2) = filter is_terminate (trace s)"
    using get_or_create_process_no_terminate [OF res] locked(3) by simp
  with locked_exchange_failed_terminate [OF failed reg2 body]
  have "map_of (processes s3) ?sid = Some p \<and>
          filter is_terminate (trace s3) = filter is_terminate (trace s) \<or>
        map_of (processes s3) ?sid = None \<and>
          filter is_terminate (trace s3) = filter is_terminate (trace s) @ [Terminate p]"
    by simp
  then have "filter is_terminate (trace s') = filter is_terminate (trace s) @ [Terminate p]"
    unfolding final by (rule terminate_process_after_failed)
  moreover have "snd (get_or_create_process (popen ev) (clock ev) ?sid s) = Returns p"
    by (simp add: res r1)
  ultimately have stopped: "\<exists>p. snd (get_or_create_process (popen ev) (clock ev) ?sid s) = Returns p \<and>
      filter is_terminate (trace s') = filter is_terminate (trace s) @ [Terminate p]"
    by blast
  have "length (filter is_write (trace s')) = length (filter is_write (trace s)) + 1"
    by (simp add: final fail(3) locked(3) created(4))
  moreover have "length (filter is_popen (trace s')) =
           length (filter is_popen (trace s)) + (if map_of (processes s) ?sid = None then 1 else 0)"
    using created(5) by (simp add: final fail(4) locked(3))
  moreover have "snd (get_or_create_process (Returns ()) now ?sid s') = Returns (heap_next s')"
    by (simp add: get_or_create_process_new [OF gone])
  ultimately show ?thesis
    using gone stopped terminate_process_clears [OF fail(2), of os]
    by (simp add: final)
qed

lemma decimal_500: "decimal 500 = ''500''"
  by (simp add: decimal.simps [of 500] decimal.simps [of 50] decimal.simps [of 5])

lemma at_noon_popen: "popen at_noon = Returns ()"
  by (simp add: at_noon_def)

lemma hung_up_failed: "exchange_failed hung_up"
  by (simp add: hung_up_def exchange_failed_def)

lemma broken_pipe_failed: "exchange_failed broken_pipe"
  by (simp add: broken_pipe_def exchange_failed_def)

theorem handle_request_failed_exchange_witness:
  "popen at_noon = Returns () \<and> exchange_failed hung_up \<and>
   snd (handle_request scalar_json all_calm at_noon hung_up (Some ''abc'') ''{}'' one_worker)
     = Raises (HTTPException 500
         ''Error processing request: 500: Subprocess terminated unexpectedly'') \<and>
   map_of (processes
     (fst (handle_request scalar_json all_calm at_noon hung_up (Some ''abc'') ''{}'' one_worker)))
     ''abc'' = None \<and>
   filter is_terminate (trace
     (fst (handle_request scalar_json all_calm at_noon hung_up (Some ''abc'') ''{}'' one_worker)))
     = [Terminate 0] \<and>
   exchange_failed broken_pipe \<and>
   snd (handle_request scalar_json all_calm at_noon broken_pipe (Some ''abc'') ''{}'' one_worker)
     = Raises (HTTPException 500 ''Error processing request: [Errno 32] Broken pipe'') \<and>
   map_of (last_activity
     (fst (handle_request scalar_json all_calm at_noon broken_pipe (Some ''abc'') ''{}''
             one_worker)))
     ''abc'' = None \<and>
   filter is_terminate (trace
     (fst (handle_request scalar_json all_calm at_noon broken_pipe (Some ''abc'') ''{}''
             one_worker)))
     = [Terminate 0]"
  using handle_request_failed_exchange [OF at_noon_popen hung_up_failed,
      of scalar_json all_calm "Some ''abc''" "''{}''" one_worker
        "fst (handle_request scalar_json all_calm at_noon hung_up (Some ''abc'') ''{}'' one_worker)"
        "snd (handle_request scalar_json all_calm at_noon hung_up (Some ''abc'') ''{}'' one_worker)"
        0]
    handle_request_failed_exchange [OF at_noon_popen broken_pipe_failed,
      of scalar_json all_calm "Some ''abc''" "''{}''" one_worker
        "fst (handle_request scalar_json all_calm at_noon broken_pipe (Some ''abc'') ''{}''
                one_worker)"
        "snd (handle_request scalar_json all_calm at_noon broken_pipe (Some ''abc'') ''{}''
                one_worker)"
        0]
  by (simp add: at_noon_def hung_up_def broken_pipe_def exchange_failed_def handle_request_def
      session_header_def one_worker_eq get_or_create_process_def get_process_lock_def
      with_lock_def locked_exchange_def emit_def terminate_process_def decimal_500
      all_calm_def calm_def stop_process_def)


section \<open>C6: the response of a unary request\<close>











section \<open>Facts about the stream gateway\<close>

lemma read_loop_at_end:
  "at_end rest \<Longrightarrow> read_loop sid p rest s = (emit [Stdout_readline p] s, [], Returns ())"
  by (induction rest rule: at_end.induct) simp_all

lemma read_loop_lines:
  assumes "nonempty_lines ls"
  shows "\<exists>s1. read_loop sid p (lines_script ls @ rest) s =
              (case read_loop sid p rest s1 of (s', ys, r) \<Rightarrow> (s', map fst ls @ ys, r)) \<and>
            processes s1 = processes s \<and> process_locks s1 = process_locks s \<and>
            map_of (last_activity s1) sid =
              (if ls = [] then map_of (last_activity s) sid else Some (snd (last ls))) \<and>
            filter is_write (trace s1) = filter is_write (trace s) \<and>
            filter is_popen (trace s1) = filter is_popen (trace s) \<and>
            set (trace s) \<subseteq> set (trace s1)"
  using assms
proof (induction ls arbitrary: s)
  case Nil
  show ?case
    by (rule exI [of _ s]) (simp add: lines_script_def split: prod.splits)
next
  case (Cons a ls)
  obtain line t where a: "a = (line, t)" by (cases a)
  from Cons.prems a have ne: "line \<noteq> []" and rest: "nonempty_lines ls"
    by (simp_all add: nonempty_lines_def)
  let ?s0 = "(emit [Stdout_readline p] s)\<lparr>last_activity := AList.update sid t (last_activity s)\<rparr>"
  from Cons.IH [OF rest, of ?s0] obtain s1 where
    run: "read_loop sid p (lines_script ls @ rest) ?s0 =
              (case read_loop sid p rest s1 of (s', ys, r) \<Rightarrow> (s', map fst ls @ ys, r))"
    and facts: "processes s1 = processes ?s0" "process_locks s1 = process_locks ?s0"
      "map_of (last_activity s1) sid =
              (if ls = [] then map_of (last_activity ?s0) sid else Some (snd (last ls)))"
      "filter is_write (trace s1) = filter is_write (trace ?s0)"
      "filter is_popen (trace s1) = filter is_popen (trace ?s0)"
      "set (trace ?s0) \<subseteq> set (trace s1)"
    by blast
  show ?case
  proof (rule exI [of _ s1], intro conjI)
    show "read_loop sid p (lines_script (a # ls) @ rest) s =
        (case read_loop sid p rest s1 of (s', ys, r) \<Rightarrow> (s', map fst (a # ls) @ ys, r))"
      using ne run by (simp add: a lines_script_def split: prod.splits)
  qed (use facts in \<open>auto simp: a emit_def AList.update_conv'\<close>)
qed

lemma stream_ended_script:
  assumes "stream_ended io ls"
  shows "stream_readlines io = lines_script ls @ drop (length ls) (stream_readlines io)"
  using assms append_take_drop_id [of "length ls" "stream_readlines io"]
  by (simp add: stream_ended_def)

lemma locked_stream_ended:
  assumes "stream_ended io ls"
  shows "\<exists>s'. locked_stream io sid p body s = (s', map fst ls, Returns ()) \<and>
            processes s' = processes s \<and> process_locks s' = process_locks s \<and>
            map_of (last_activity s') sid =
              (if ls = [] then map_of (last_activity s) sid else Some (snd (last ls)))"
proof -
  let ?rest = "drop (length ls) (stream_readlines io)"
  let ?s0 = "emit [Stdin_write p (body @ ''\<newline>''), Stdin_flush p] s"
  from assms have ok: "stream_write io = Returns ()" "stream_flush io = Returns ()"
    and ne: "nonempty_lines ls" and fin: "at_end ?rest"
    by (simp_all add: stream_ended_def)
  from read_loop_lines [OF ne, of sid p ?rest ?s0] obtain s1 where
    run: "read_loop sid p (lines_script ls @ ?rest) ?s0 =
              (case read_loop sid p ?rest s1 of (s', ys, r) \<Rightarrow> (s', map fst ls @ ys, r))"
    and facts: "processes s1 = processes ?s0" "process_locks s1 = process_locks ?s0"
      "map_of (last_activity s1) sid =
         (if ls = [] then map_of (last_activity ?s0) sid else Some (snd (last ls)))"
    by blast
  have "locked_stream io sid p body s = (emit [Stdout_readline p] s1, map fst ls, Returns ())"
    using run stream_ended_script [OF assms]
    by (simp add: locked_stream_def ok read_loop_at_end [OF fin])
  with facts show ?thesis by simp
qed

lemma locked_stream_fault:
  assumes "stream_fault io ls e"
  shows "\<exists>s'. locked_stream io sid p body s = (s', map fst ls, Raises e) \<and>
            processes s' = processes s"
proof (cases "stream_write io")
  case (Raises e')
  with assms show ?thesis
    by (simp add: stream_fault_def locked_stream_def)
next
  case written: (Returns u)
  show ?thesis
  proof (cases "stream_flush io")
    case (Raises e')
    with assms written show ?thesis
      by (simp add: stream_fault_def locked_stream_def)
  next
    case flushed: (Returns v)
    let ?rest = "drop (length ls) (stream_readlines io)"
    let ?s0 = "emit [Stdin_write p (body @ ''\<newline>''), Stdin_flush p] s"
    from assms written flushed have ne: "nonempty_lines ls"
      and pre: "take (length ls) (stream_readlines io) = lines_script ls"
      and "case ?rest of (Raises e', now) # script \<Rightarrow> e' = e | _ \<Rightarrow> False"
      by (simp_all add: stream_fault_def)
    then obtain t script where rest: "?rest = (Raises e, t) # script"
      by (auto split: list.splits prod.splits outcome.splits)
    have script: "stream_readlines io = lines_script ls @ ?rest"
      using append_take_drop_id [of "length ls" "stream_readlines io"] pre by simp
    from read_loop_lines [OF ne, of sid p ?rest ?s0] obtain s1 where
      run: "read_loop sid p (lines_script ls @ ?rest) ?s0 =
              (case read_loop sid p ?rest s1 of (s', ys, r) \<Rightarrow> (s', map fst ls @ ys, r))"
      and facts: "processes s1 = processes ?s0"
      by blast
    have "locked_stream io sid p body s = (emit [Stdout_readline p] s1, map fst ls, Raises e)"
      using run script by (simp add: locked_stream_def written flushed rest)
    with facts show ?thesis by simp
  qed
qed

lemma response_generator_ended:
  assumes "stream_ended io ls"
  shows "\<exists>s'. response_generator os io sid p l body s = (s', map fst ls) \<and>
            processes s' = processes s \<and> process_locks s' = process_locks s \<and>
            map_of (last_activity s') sid =
              (if ls = [] then map_of (last_activity s) sid else Some (snd (last ls)))"
proof -
  from locked_stream_ended [OF assms, of sid p body "emit [Acquire l] s"]
  obtain s1 where "locked_stream io sid p body (emit [Acquire l] s) = (s1, map fst ls, Returns ())"
    and "processes s1 = processes s" "process_locks s1 = process_locks s"
      "map_of (last_activity s1) sid =
         (if ls = [] then map_of (last_activity s) sid else Some (snd (last ls)))"
    by auto
  then show ?thesis
    by (simp add: response_generator_def with_lock_def)
qed

lemma response_generator_fault:
  assumes "stream_fault io ls e"
  shows "\<exists>s1. response_generator os io sid p l body s =
              (terminate_process os sid s1, map fst ls @ [''Error: '' @ str_exn e]) \<and>
            processes s1 = processes s"
proof -
  from locked_stream_fault [OF assms, of sid p body "emit [Acquire l] s"]
  obtain s1 where "locked_stream io sid p body (emit [Acquire l] s) = (s1, map fst ls, Raises e)"
    and "processes s1 = processes s"
    by auto
  then show ?thesis
    by (auto simp: response_generator_def with_lock_def intro!: exI [of _ "emit [Release l] s1"])
qed

lemma handle_stream_request_resolved:
  assumes "get_or_create_process (popen ev) (clock ev) (session_header header (uuid4 ev)) s
             = (s1, Returns p)"
    and "get_process_lock (session_header header (uuid4 ev)) s1 = (s2, l)"
    and "response_generator os io (session_header header (uuid4 ev)) p l body s2 = (s3, ys)"
  shows "handle_stream_request os ev io header body s =
           (s3, Returns \<lparr>stream_status = 200, chunks = ys,
                          stream_media_type = ''application/jsonl'',
                          stream_headers =
                            [(''X-Session-ID'', session_header header (uuid4 ev))]\<rparr>)"
  using assms by (simp add: handle_stream_request_def Let_def)


section \<open>C10: exceptions in the stream gateway\<close>

text \<open>
  C10.  For a stream request whose worker was resolved: when the write, the flush or a
  read raises an exception after the lines \<open>ls\<close> were yielded, the response still has
  status 200, its chunks are the lines followed by one last chunk, the bytes
  \<^verbatim>\<open>Error: \<close> and then the exception's message, \<^verbatim>\<open>terminate()\<close> was called on the worker
  and the session id is absent from the process, lock and last-activity maps.  When the
  worker's output simply ends, the chunks are the lines and nothing else, and the worker
  is still registered.
\<close>

theorem response_generator_error_chunk:
  assumes resolve:
      "get_or_create_process (popen ev) (clock ev) (session_header header (uuid4 ev)) s
         = (s1, Returns p)"
    and run: "handle_stream_request os ev io header body s = (s', r)"
  shows "(stream_fault io ls e \<longrightarrow>
            r = Returns \<lparr>stream_status = 200,
                         chunks = map fst ls @ [''Error: '' @ str_exn e],
                         stream_media_type = ''application/jsonl'',
                         stream_headers =
                           [(''X-Session-ID'', session_header header (uuid4 ev))]\<rparr> \<and>
            Terminate p \<in> set (trace s') \<and>
            map_of (processes s') (session_header header (uuid4 ev)) = None \<and>
            map_of (process_locks s') (session_header header (uuid4 ev)) = None \<and>
            map_of (last_activity s') (session_header header (uuid4 ev)) = None) \<and>
         (stream_ended io ls \<longrightarrow>
            r = Returns \<lparr>stream_status = 200, chunks = map fst ls,
                         stream_media_type = ''application/jsonl'',
                         stream_headers =
                           [(''X-Session-ID'', session_header header (uuid4 ev))]\<rparr> \<and>
            map_of (processes s') (session_header header (uuid4 ev)) = Some p)"
proof -
  let ?sid = "session_header header (uuid4 ev)"
  note created = get_or_create_process_Returns [OF resolve]
  obtain s2 l where lock: "get_process_lock ?sid s1 = (s2, l)"
    by (cases "get_process_lock ?sid s1")
  note locked = get_process_lock_fields [OF lock]
  have reg: "map_of (processes s2) ?sid = Some p"
    using created(1) locked(1) by simp
  show ?thesis
  proof (intro conjI impI)
    assume fault: "stream_fault io ls e"
    from response_generator_fault [OF fault, of os ?sid p l body s2] obtain s3 where
      gen: "response_generator os io ?sid p l body s2 =
              (terminate_process os ?sid s3, map fst ls @ [''Error: '' @ str_exn e])"
      and same: "processes s3 = processes s2"
      by blast
    from handle_stream_request_resolved [OF resolve lock gen] run
    have final: "s' = terminate_process os ?sid s3"
      and resp: "r = Returns \<lparr>stream_status = 200,
                         chunks = map fst ls @ [''Error: '' @ str_exn e],
                         stream_media_type = ''application/jsonl'',
                         stream_headers = [(''X-Session-ID'', ?sid)]\<rparr>"
      by simp_all
    from reg same have reg3: "map_of (processes s3) ?sid = Some p" by simp
    then have "map_of (processes s3) ?sid \<noteq> None" by simp
    from terminate_process_removes [OF this, of os]
    show "map_of (processes s') ?sid = None" and "map_of (process_locks s') ?sid = None"
      and "map_of (last_activity s') ?sid = None"
      by (simp_all add: final)
    show "Terminate p \<in> set (trace s')"
      by (simp add: final terminate_process_registered [OF reg3] stop_process_calls)
    show "r = Returns \<lparr>stream_status = 200,
                         chunks = map fst ls @ [''Error: '' @ str_exn e],
                         stream_media_type = ''application/jsonl'',
                         stream_headers = [(''X-Session-ID'', ?sid)]\<rparr>"
      by (rule resp)
  next
    assume ended: "stream_ended io ls"
    from response_generator_ended [OF ended, of os ?sid p l body s2] obtain s3 where
      gen: "response_generator os io ?sid p l body s2 = (s3, map fst ls)"
      and same: "processes s3 = processes s2"
      by blast
    from handle_stream_request_resolved [OF resolve lock gen] run
    have final: "s' = s3"
      and resp: "r = Returns \<lparr>stream_status = 200, chunks = map fst ls,
                         stream_media_type = ''application/jsonl'',
                         stream_headers = [(''X-Session-ID'', ?sid)]\<rparr>"
      by simp_all
    show "map_of (processes s') ?sid = Some p"
      using reg same by (simp add: final)
    show "r = Returns \<lparr>stream_status = 200, chunks = map fst ls,
                         stream_media_type = ''application/jsonl'',
                         stream_headers = [(''X-Session-ID'', ?sid)]\<rparr>"
      by (rule resp)
  qed
qed
lemma resolve_abc:
  "get_or_create_process (popen at_noon) (clock at_noon)
     (session_header (Some ''abc'') (uuid4 at_noon)) one_worker
   = (one_worker, Returns 0)"
  by (simp add: get_or_create_process_def session_header_def at_noon_def one_worker_eq)

lemma crashing_stream_fault:
  "stream_fault crashing_stream [(''a\<newline>'', 1), (''b\<newline>'', 2)] (OtherError ''read of closed file'')"
  by (simp add: stream_fault_def crashing_stream_def nonempty_lines_def lines_script_def)

lemma quiet_stream_ended:
  "stream_ended quiet_stream [(''a\<newline>'', 1), (''b\<newline>'', 2)]"
  by (simp add: stream_ended_def quiet_stream_def nonempty_lines_def lines_script_def)

theorem response_generator_error_chunk_witness:
  "stream_fault crashing_stream [(''a\<newline>'', 1), (''b\<newline>'', 2)]
     (OtherError ''read of closed file'') \<and>
   snd (handle_stream_request all_calm at_noon crashing_stream (Some ''abc'') ''{}'' one_worker)
     = Returns \<lparr>stream_status = 200,
                  chunks = [''a\<newline>'', ''b\<newline>'', ''Error: read of closed file''],
                  stream_media_type = ''application/jsonl'',
                  stream_headers = [(''X-Session-ID'', ''abc'')]\<rparr> \<and>
   map_of (processes
     (fst (handle_stream_request all_calm at_noon crashing_stream (Some ''abc'') ''{}'' one_worker)))
     ''abc'' = None \<and>
   stream_ended quiet_stream [(''a\<newline>'', 1), (''b\<newline>'', 2)] \<and>
   snd (handle_stream_request all_calm at_noon quiet_stream (Some ''abc'') ''{}'' one_worker)
     = Returns \<lparr>stream_status = 200, chunks = [''a\<newline>'', ''b\<newline>''],
                  stream_media_type = ''application/jsonl'',
                  stream_headers = [(''X-Session-ID'', ''abc'')]\<rparr> \<and>
   map_of (processes
     (fst (handle_stream_request all_calm at_noon quiet_stream (Some ''abc'') ''{}'' one_worker)))
     ''abc'' = Some 0"
proof -
  have run: "\<And>io. handle_stream_request all_calm at_noon io (Some ''abc'') ''{}'' one_worker
      = (fst (handle_stream_request all_calm at_noon io (Some ''abc'') ''{}'' one_worker),
         snd (handle_stream_request all_calm at_noon io (Some ''abc'') ''{}'' one_worker))"
    by simp
  have sid: "session_header (Some ''abc'') (uuid4 at_noon) = ''abc''"
    by (simp add: session_header_def)
  show ?thesis
    using response_generator_error_chunk [OF resolve_abc run,
        of crashing_stream "[(''a\<newline>'', 1), (''b\<newline>'', 2)]" "OtherError ''read of closed file''"]
      response_generator_error_chunk [OF resolve_abc run,
        of quiet_stream "[(''a\<newline>'', 1), (''b\<newline>'', 2)]" "OtherError ''read of closed file''"]
    by (simp add: crashing_stream_fault quiet_stream_ended sid)
qed


section \<open>C7: last activity after an exchange\<close>














section \<open>C2: duplex sessions and the idle scan\<close>




















end
